theory Spec2Isabelle
  imports Complex_Main "HOL-Library.Word"
begin

section \<open>Data model\<close>

text \<open>
  A ROM image is a Python \<open>bytes\<close>/\<open>bytearray\<close>: a list of 8-bit words. A Python
  \<open>str\<close> is a list of Unicode code points. Offsets, ids and lengths are Python's
  unbounded non-negative integers.
\<close>

type_synonym byte = "8 word"
type_synonym ustring = "nat list"

definition ustr :: "string \<Rightarrow> ustring" where
  "ustr s = map of_char s"

datatype py_exception =
    UnicodeDecodeError "byte list" nat nat
  | ValueError
  | StructError
  | IndexError
  | SystemExit

text \<open>
  The parts of the Python runtime that are tables rather than code are parameters:
  the double-byte part of the \<open>shift_jis\<close> codec (a lead and a trail byte to a code
  point, and back), and the Unicode "alphanumeric" property that the regular
  expression class \<open>\w\<close> consults outside ASCII.
\<close>

record pylib =
  dbcs_decode :: "byte \<Rightarrow> byte \<Rightarrow> nat option"
  dbcs_encode :: "nat \<Rightarrow> (byte \<times> byte) option"
  isalnum :: "nat \<Rightarrow> bool"

definition terminator :: byte where
  "terminator = 0x00"

definition newline_char :: byte where
  "newline_char = 0x0a"

definition OFFSET_MIN_VALID :: nat where
  "OFFSET_MIN_VALID = 0x0010C000"

section \<open>Python library functions used by the scripts\<close>

text \<open>\<open>s[a:b]\<close> for non-negative \<open>a\<close>, \<open>b\<close>.\<close>

definition slice :: "'a list \<Rightarrow> nat \<Rightarrow> nat \<Rightarrow> 'a list" where
  "slice xs a b = take (b - a) (drop a xs)"

text \<open>\<open>data.find(b, start)\<close> for a one-byte needle: the first index at or after
  \<open>start\<close> that holds \<open>b\<close>; \<open>None\<close> stands for Python's \<open>-1\<close>.\<close>

fun find_in :: "byte list \<Rightarrow> byte \<Rightarrow> nat \<Rightarrow> nat option" where
  "find_in [] b i = None"
| "find_in (x # xs) b i = (if x = b then Some i else find_in xs b (Suc i))"

definition find_byte :: "byte list \<Rightarrow> byte \<Rightarrow> nat \<Rightarrow> nat option" where
  "find_byte data b start = find_in (drop start data) b start"

text \<open>\<open>bytes.replace(old, new)\<close> for a one-byte \<open>old\<close>.\<close>

definition bytes_replace :: "byte list \<Rightarrow> byte \<Rightarrow> byte list \<Rightarrow> byte list" where
  "bytes_replace bs old new = concat (map (\<lambda>b. if b = old then new else [b]) bs)"

text \<open>\<open>bytes.hex().upper()\<close>.\<close>

definition hex_digit_upper :: "nat \<Rightarrow> nat" where
  "hex_digit_upper d = (if d < 10 then 0x30 + d else 0x37 + d)"

definition hex_upper :: "byte list \<Rightarrow> ustring" where
  "hex_upper bs = concat (map (\<lambda>b. [hex_digit_upper (unat b div 16), hex_digit_upper (unat b mod 16)]) bs)"

text \<open>\<open>str.isspace()\<close> of one character, which is also the class \<open>\s\<close> of \<open>re\<close>.\<close>

definition is_space :: "nat \<Rightarrow> bool" where
  "is_space c = ((0x09 \<le> c \<and> c \<le> 0x0D) \<or> (0x1C \<le> c \<and> c \<le> 0x20) \<or> c = 0x85 \<or> c = 0xA0
     \<or> c = 0x1680 \<or> (0x2000 \<le> c \<and> c \<le> 0x200A) \<or> c = 0x2028 \<or> c = 0x2029
     \<or> c = 0x202F \<or> c = 0x205F \<or> c = 0x3000)"

definition strip :: "ustring \<Rightarrow> ustring" where
  "strip s = rev (dropWhile is_space (rev (dropWhile is_space s)))"

text \<open>The character class \<open>[A-Za-z0-9]\<close>.\<close>

definition latin_digit :: "nat \<Rightarrow> bool" where
  "latin_digit c = ((0x41 \<le> c \<and> c \<le> 0x5A) \<or> (0x61 \<le> c \<and> c \<le> 0x7A) \<or> (0x30 \<le> c \<and> c \<le> 0x39))"

text \<open>The class \<open>\w\<close>: \<open>[A-Za-z0-9_]\<close> in ASCII, alphanumeric characters elsewhere.\<close>

definition word_char :: "pylib \<Rightarrow> nat \<Rightarrow> bool" where
  "word_char L c = (if c < 0x80 then latin_digit c \<or> c = 0x5F else isalnum L c)"

text \<open>\<open>bytes.fromhex\<close>: ASCII white space is skipped between pairs of hexadecimal
  digits; anything else raises \<open>ValueError\<close>.\<close>

definition hexval :: "nat \<Rightarrow> nat option" where
  "hexval c = (if 0x30 \<le> c \<and> c \<le> 0x39 then Some (c - 0x30)
               else if 0x41 \<le> c \<and> c \<le> 0x46 then Some (c - 0x37)
               else if 0x61 \<le> c \<and> c \<le> 0x66 then Some (c - 0x57)
               else None)"

definition ascii_space :: "nat \<Rightarrow> bool" where
  "ascii_space c = ((0x09 \<le> c \<and> c \<le> 0x0D) \<or> c = 0x20)"

fun fromhex :: "ustring \<Rightarrow> py_exception + byte list" where
  "fromhex [] = Inr []"
| "fromhex (c # cs) =
     (if ascii_space c then fromhex cs
      else (case hexval c of
              None \<Rightarrow> Inl ValueError
            | Some h \<Rightarrow>
                (case cs of
                   [] \<Rightarrow> Inl ValueError
                 | d # ds \<Rightarrow>
                     (case hexval d of
                        None \<Rightarrow> Inl ValueError
                      | Some l \<Rightarrow>
                          (case fromhex ds of
                             Inl e \<Rightarrow> Inl e
                           | Inr bs \<Rightarrow> Inr (of_nat (16 * h + l) # bs))))))"

subsection \<open>The \<open>shift_jis\<close> codec\<close>

text \<open>
  One decoding step on the bytes still to be decoded: \<open>Some (u, n)\<close> when the first
  \<open>n\<close> bytes are the character \<open>u\<close>, \<open>None\<close> when the first byte is an
  undecodable subsequence (the codec reports every error with \<open>end = start + 1\<close>,
  a lead byte at the end of the input included). Bytes below \<open>0x80\<close> are themselves,
  \<open>0xA1..0xDF\<close> are the half-width katakana, a lead byte with a trail byte is looked
  up in the table, and any other byte is an error.
\<close>

definition sjis_lead_byte :: "nat \<Rightarrow> bool" where
  "sjis_lead_byte c = ((0x81 \<le> c \<and> c \<le> 0x9F) \<or> (0xE0 \<le> c \<and> c \<le> 0xEA))"

definition sjis_trail_byte :: "nat \<Rightarrow> bool" where
  "sjis_trail_byte c = (0x40 \<le> c \<and> c \<le> 0xFC \<and> c \<noteq> 0x7F)"

fun sjis_decode_step :: "pylib \<Rightarrow> byte list \<Rightarrow> (nat \<times> nat) option" where
  "sjis_decode_step L [] = None"
| "sjis_decode_step L (c # bs) =
     (if unat c < 0x80 then Some (unat c, 1)
      else if 0xA1 \<le> unat c \<and> unat c \<le> 0xDF then Some (0xFEC0 + unat c, 1)
      else if sjis_lead_byte (unat c) then
        (case bs of
           [] \<Rightarrow> None
         | t # _ \<Rightarrow>
             if sjis_trail_byte (unat t)
             then (case dbcs_decode L c t of None \<Rightarrow> None | Some u \<Rightarrow> Some (u, 2))
             else None)
      else None)"

text \<open>\<open>custom_sjis_error_handler\<close> of dump.py: the undecodable bytes become the token
  \<open><$HEX$>\<close> and decoding resumes at \<open>e.end\<close>; any other exception is raised again.\<close>

fun custom_sjis_error_handler :: "py_exception \<Rightarrow> py_exception + (ustring \<times> nat)" where
  "custom_sjis_error_handler (UnicodeDecodeError obj start end) =
     (let bad_bytes = slice obj start end;
          hex_representation = hex_upper bad_bytes
      in Inr (ustr ''<$'' @ hex_representation @ ustr ''$>'', end))"
| "custom_sjis_error_handler e = Inl e"

text \<open>\<open>obj.decode('shift_jis', errors='custom_sjis')\<close>, from position \<open>pos\<close> on: decoded
  characters are collected, each error is handed to the handler, whose replacement
  is inserted and whose position is where decoding goes on.\<close>

function shift_jis_decode :: "pylib \<Rightarrow> byte list \<Rightarrow> nat \<Rightarrow> py_exception + ustring" where
  "shift_jis_decode L obj pos =
     (if length obj \<le> pos then Inr []
      else (case sjis_decode_step L (drop pos obj) of
              Some (u, n) \<Rightarrow>
                (case shift_jis_decode L obj (pos + n) of
                   Inl e \<Rightarrow> Inl e
                 | Inr s \<Rightarrow> Inr (u # s))
            | None \<Rightarrow>
                (case custom_sjis_error_handler (UnicodeDecodeError obj pos (Suc pos)) of
                   Inl e \<Rightarrow> Inl e
                 | Inr (repl, newpos) \<Rightarrow>
                     (case shift_jis_decode L obj newpos of
                        Inl e \<Rightarrow> Inl e
                      | Inr s \<Rightarrow> Inr (repl @ s)))))"
  by pat_completeness auto
termination
proof (relation "measure (\<lambda>(L, obj, pos). length obj - pos)")
  show "wf (measure (\<lambda>(L, obj, pos). length obj - pos))"
    by simp
next
  fix L :: pylib and obj :: "byte list" and pos :: nat and x :: "nat \<times> nat" and u n :: nat
  assume "\<not> length obj \<le> pos" and "sjis_decode_step L (drop pos obj) = Some x" and "(u, n) = x"
  then have "0 < n"
    by (cases "drop pos obj") (auto split: if_splits list.splits option.splits)
  with \<open>\<not> length obj \<le> pos\<close>
  show "((L, obj, pos + n), (L, obj, pos)) \<in> measure (\<lambda>(L, obj, pos). length obj - pos)"
    by simp
next
  fix L :: pylib and obj :: "byte list" and pos :: nat and b :: "ustring \<times> nat"
    and repl :: ustring and newpos :: nat
  assume "\<not> length obj \<le> pos"
    and "custom_sjis_error_handler (UnicodeDecodeError obj pos (Suc pos)) = Inr b"
    and "(repl, newpos) = b"
  then show "((L, obj, newpos), (L, obj, pos)) \<in> measure (\<lambda>(L, obj, pos). length obj - pos)"
    by auto
qed

declare shift_jis_decode.simps [simp del]

text \<open>Encoding of one character: \<open>None\<close> when it is outside the repertoire.\<close>

definition sjis_encode_char :: "pylib \<Rightarrow> nat \<Rightarrow> byte list option" where
  "sjis_encode_char L u =
     (if u < 0x80 then Some [of_nat u]
      else if u = 0xA5 then Some [0x5C]
      else if u = 0x203E then Some [0x7E]
      else if 0xFF61 \<le> u \<and> u \<le> 0xFF9F then Some [of_nat (u - 0xFEC0)]
      else (case dbcs_encode L u of None \<Rightarrow> None | Some (l, t) \<Rightarrow> Some [l, t]))"

text \<open>\<open>part.encode('shift_jis', errors='replace')\<close>: a character outside the
  repertoire becomes the byte \<open>?\<close>; no exception is raised for it.\<close>

definition shift_jis_encode_replace :: "pylib \<Rightarrow> ustring \<Rightarrow> py_exception + byte list" where
  "shift_jis_encode_replace L s =
     Inr (concat (map (\<lambda>u. case sjis_encode_char L u of None \<Rightarrow> [0x3F] | Some bs \<Rightarrow> bs) s))"

section \<open>dump.py: the codec side\<close>

definition read_string_from :: "pylib \<Rightarrow> byte list \<Rightarrow> nat \<Rightarrow> byte \<Rightarrow> ustring option" where
  "read_string_from L data offset terminator_byte =
     (if offset \<ge> length data then None
      else (case find_byte data terminator_byte offset of
              None \<Rightarrow> None
            | Some end_index \<Rightarrow>
                (let chunk = slice data offset end_index;
                     processed_chunk = bytes_replace chunk newline_char [0x0a]
                 in (case shift_jis_decode L processed_chunk 0 of
                       Inl e \<Rightarrow> None
                     | Inr decoded \<Rightarrow> Some decoded))))"

subsection \<open>The validity classifier\<close>

definition MIN_CHARS :: nat where "MIN_CHARS = 2"
definition MAX_REPLACEMENT_FRAC :: real where "MAX_REPLACEMENT_FRAC = 0.15"
definition MIN_PRINTABLE_FRAC :: real where "MIN_PRINTABLE_FRAC = 0.55"
definition MIN_JP_CHARS_OVERRIDE :: nat where "MIN_JP_CHARS_OVERRIDE = 2"
definition MIN_LATIN_DIGITS :: nat where "MIN_LATIN_DIGITS = 3"
definition MAX_TOTAL_LENGTH :: nat where "MAX_TOTAL_LENGTH = 1024"
definition MAX_CONTROL_CHAR_FRAC :: real where "MAX_CONTROL_CHAR_FRAC = 0.05"
definition MIN_NON_JP_LENGTH :: nat where "MIN_NON_JP_LENGTH = 5"

text \<open>\<open>JAPANESE_RE\<close>, \<open>PRINTABLE_RE\<close>: one character of the class.\<close>

definition japanese_char :: "nat \<Rightarrow> bool" where
  "japanese_char c = ((0x3040 \<le> c \<and> c \<le> 0x309F) \<or> (0x30A0 \<le> c \<and> c \<le> 0x30FF)
     \<or> (0x4E00 \<le> c \<and> c \<le> 0x9FFF))"

definition printable_char :: "nat \<Rightarrow> bool" where
  "printable_char c = ((0x0020 \<le> c \<and> c \<le> 0x007E) \<or> (0x3000 \<le> c \<and> c \<le> 0x303F)
     \<or> (0x3040 \<le> c \<and> c \<le> 0x309F) \<or> (0x30A0 \<le> c \<and> c \<le> 0x30FF)
     \<or> (0x4E00 \<le> c \<and> c \<le> 0x9FFF) \<or> c = 0x0A \<or> c = 0x0D \<or> c = 0x09)"

text \<open>\<open>REPLACEMENT_TOKEN_RE\<close> at the head of \<open>s\<close>: \<open><$\<close>, two or more \<open>\w\<close>, \<open>$>\<close>.
  As \<open>$\<close> is no \<open>\w\<close>, the greedy run is the only candidate. The result is the
  token and the text after it.\<close>

definition match_repl_token :: "pylib \<Rightarrow> ustring \<Rightarrow> (ustring \<times> ustring) option" where
  "match_repl_token L s =
     (case s of
        a # b # t \<Rightarrow>
          (let w = takeWhile (word_char L) t; t' = dropWhile (word_char L) t
           in if a = 0x3C \<and> b = 0x24 \<and> 2 \<le> length w \<and> take 2 t' = [0x24, 0x3E]
              then Some ([0x3C, 0x24] @ w @ [0x24, 0x3E], drop 2 t')
              else None)
      | _ \<Rightarrow> None)"

text \<open>\<open>REPLACEMENT_TOKEN_RE.findall(text)\<close>: the matches from left to right, without
  overlap.\<close>

function findall_repl_tokens :: "pylib \<Rightarrow> ustring \<Rightarrow> ustring list" where
  "findall_repl_tokens L s =
     (case s of
        [] \<Rightarrow> []
      | c # cs \<Rightarrow>
          (case match_repl_token L s of
             Some (tok, rest) \<Rightarrow> tok # findall_repl_tokens L rest
           | None \<Rightarrow> findall_repl_tokens L cs))"
  by pat_completeness auto
termination
proof (relation "measure (\<lambda>(L, s). length s)")
  show "wf (measure (\<lambda>(L, s). length s))"
    by simp
next
  fix L :: pylib and s :: ustring and c :: nat and cs :: ustring
    and x :: "ustring \<times> ustring" and tok rest :: ustring
  assume "s = c # cs" and m: "match_repl_token L s = Some x" and "(tok, rest) = x"
  then have "match_repl_token L s = Some (tok, rest)"
    by simp
  moreover have "length (dropWhile P t) - 2 < Suc (Suc (length t))" for P and t :: ustring
    using length_dropWhile_le [of P t] by arith
  ultimately have "length rest < length s"
    by (auto simp: match_repl_token_def Let_def split: list.splits if_splits)
  then show "((L, rest), (L, s)) \<in> measure (\<lambda>(L, s). length s)"
    by simp
next
  fix L :: pylib and s :: ustring and c :: nat and cs :: ustring
  assume "s = c # cs"
  then show "((L, cs), (L, s)) \<in> measure (\<lambda>(L, s). length s)"
    by simp
qed

declare findall_repl_tokens.simps [simp del]

definition is_repeated_pattern :: "ustring \<Rightarrow> bool" where
  "is_repeated_pattern s =
     (length (remdups s) = 1 \<or>
      list_ex (\<lambda>size. length s > size \<and> length s mod size = 0 \<and>
                  concat (replicate (length s div size) (take size s)) = s)
        [1, 2, 3, 4, 5])"

definition is_single_japanese_char_repetition :: "ustring \<Rightarrow> bool" where
  "is_single_japanese_char_repetition s =
     (if length s = 0 then False
      else if length (remdups s) = 1 then japanese_char (hd (remdups s))
      else False)"

text \<open>The two \<open>re.match\<close> tests on \<open>start_sample\<close>.\<close>

definition starts_jp_then_latin :: "ustring \<Rightarrow> bool" where
  "starts_jp_then_latin s =
     (case s of a # b # _ \<Rightarrow> ((0x3040 \<le> a \<and> a \<le> 0x30FF) \<or> (0x4E00 \<le> a \<and> a \<le> 0x9FFF)) \<and> latin_digit b
      | _ \<Rightarrow> False)"

definition starts_short_latin_then_other :: "ustring \<Rightarrow> bool" where
  "starts_short_latin_then_other s =
     (let m = length (takeWhile latin_digit s) in 1 \<le> m \<and> m \<le> 3 \<and> m < length s)"

text \<open>
  \<open>is_valid_string\<close>. The three fractions are quotients of integers up to 1024 and
  are compared with the decimal constants; a quotient that is not exactly the constant
  is further from it than a rounding error, and one that is exactly the constant
  rounds to the same float as the literal, so the comparisons of the floats are the
  comparisons of the exact quotients written here.
\<close>

definition is_valid_string :: "pylib \<Rightarrow> ustring option \<Rightarrow> bool" where
  "is_valid_string L text_opt =
     (case text_opt of
        None \<Rightarrow> False
      | Some text \<Rightarrow>
          if text = [] then False
          else if length (strip text) < MIN_CHARS then False
          else if length text > MAX_TOTAL_LENGTH then False
          else
            (let repl_tokens = findall_repl_tokens L text;
                 repl_frac = real (length (concat repl_tokens)) / real (max 1 (length text));
                 repl_token_count = length repl_tokens;
                 printable_chars = filter printable_char text;
                 printable_frac = real (length printable_chars) / real (max 1 (length text));
                 jp_count = length (filter japanese_char text);
                 latin_digits_count = length (filter latin_digit text);
                 control_chars = filter (\<lambda>c. c < 0x20 \<and> c \<noteq> 0x0A \<and> c \<noteq> 0x0D \<and> c \<noteq> 0x09) text;
                 control_frac = real (length control_chars) / real (max 1 (length text))
             in if control_frac > MAX_CONTROL_CHAR_FRAC then False
                else if jp_count < MIN_JP_CHARS_OVERRIDE \<and> latin_digits_count < MIN_LATIN_DIGITS then False
                else if printable_frac < MIN_PRINTABLE_FRAC then False
                else if repl_token_count > 0 \<and> repl_frac > MAX_REPLACEMENT_FRAC then False
                else if jp_count \<ge> MIN_JP_CHARS_OVERRIDE \<and> real repl_token_count < real (length text) * 0.5 then True
                else if jp_count = 0 \<and> length printable_chars < MIN_NON_JP_LENGTH then False
                else if jp_count = 0 \<and> latin_digits_count < 3 then False
                else if is_repeated_pattern text \<and> \<not> is_single_japanese_char_repetition text then False
                else (let start_sample = take 6 text
                      in if starts_jp_then_latin start_sample then False
                         else if starts_short_latin_then_other start_sample \<and> length text < 8 then False
                         else True)))"

section \<open>dump.py: the extraction run\<close>

text \<open>
  A block written to the export file, as data: the id, the pointer offset and the text
  offset, then the decoded text or the id of the block it is a duplicate of.
\<close>

datatype block =
    TextBlock (block_id: nat) (block_pointer: nat) (block_offset: nat) ustring
  | DuplicateBlock (block_id: nat) (block_pointer: nat) (block_offset: nat) nat

record dump_state =
  string_id_counter :: nat
  seen_text_offsets :: "nat \<rightharpoonup> nat"
  output_file :: "block list"

definition initial_dump_state :: dump_state where
  "initial_dump_state = \<lparr> string_id_counter = 0, seen_text_offsets = Map.empty, output_file = [] \<rparr>"

text \<open>\<open>struct.unpack('<I', b)[0]\<close>; \<open>struct.error\<close> unless \<open>b\<close> has four bytes.\<close>

definition unpack_le32 :: "byte list \<Rightarrow> py_exception + nat" where
  "unpack_le32 bs =
     (case bs of
        [b0, b1, b2, b3] \<Rightarrow> Inr (unat b0 + 0x100 * unat b1 + 0x10000 * unat b2 + 0x1000000 * unat b3)
      | _ \<Rightarrow> Inl StructError)"

subsection \<open>Mode \<open>scan\<close>\<close>

text \<open>\<open>range(0, rom_size - 4, 4)\<close>; the range is empty when \<open>rom_size - 4\<close> is not
  positive.\<close>

definition scan_offsets :: "nat \<Rightarrow> nat list" where
  "scan_offsets rom_size = filter (\<lambda>ptr_offset. ptr_offset mod 4 = 0) [0 ..< rom_size - 4]"

text \<open>The body of the first loop: the pointers appended to \<open>all_pointers\<close> for one
  \<open>ptr_offset\<close>, as pairs \<open>(ptr_offset, file_offset)\<close>.\<close>

definition scan_pointer :: "byte list \<Rightarrow> nat \<Rightarrow> py_exception + (nat \<times> nat) list" where
  "scan_pointer rom_data ptr_offset =
     (case unpack_le32 (slice rom_data ptr_offset (ptr_offset + 4)) of
        Inl e \<Rightarrow> Inl e
      | Inr address \<Rightarrow>
          if 0x08000000 \<le> address \<and> address < 0x09000000 then
            (let file_offset = address - 0x08000000
             in if file_offset < length rom_data \<and> file_offset \<ge> OFFSET_MIN_VALID
                then Inr [(ptr_offset, file_offset)] else Inr [])
          else Inr [])"

fun collect_pointers :: "byte list \<Rightarrow> nat list \<Rightarrow> py_exception + (nat \<times> nat) list" where
  "collect_pointers rom_data [] = Inr []"
| "collect_pointers rom_data (ptr_offset # offsets) =
     (case scan_pointer rom_data ptr_offset of
        Inl e \<Rightarrow> Inl e
      | Inr found \<Rightarrow>
          (case collect_pointers rom_data offsets of
             Inl e \<Rightarrow> Inl e
           | Inr others \<Rightarrow> Inr (found @ others)))"

text \<open>The body of the second loop, for one pointer.\<close>

definition scan_entry :: "pylib \<Rightarrow> byte list \<Rightarrow> dump_state \<Rightarrow> nat \<times> nat \<Rightarrow> dump_state" where
  "scan_entry L rom_data st pointer_info =
     (case pointer_info of (ptr_offset, file_offset) \<Rightarrow>
        (case seen_text_offsets st file_offset of
           Some original_id \<Rightarrow>
             st \<lparr> output_file := output_file st @
                     [DuplicateBlock (string_id_counter st) ptr_offset file_offset original_id],
                  string_id_counter := string_id_counter st + 1 \<rparr>
         | None \<Rightarrow>
             (let text_string = read_string_from L rom_data file_offset terminator
              in if is_valid_string L text_string then
                   st \<lparr> seen_text_offsets := (seen_text_offsets st)(file_offset \<mapsto> string_id_counter st),
                        output_file := output_file st @
                          [TextBlock (string_id_counter st) ptr_offset file_offset (the text_string)],
                        string_id_counter := string_id_counter st + 1 \<rparr>
                 else st)))"

fun scan_entries :: "pylib \<Rightarrow> byte list \<Rightarrow> dump_state \<Rightarrow> (nat \<times> nat) list \<Rightarrow> dump_state" where
  "scan_entries L rom_data st [] = st"
| "scan_entries L rom_data st (pointer_info # all_pointers) =
     scan_entries L rom_data (scan_entry L rom_data st pointer_info) all_pointers"

definition dump_scan :: "pylib \<Rightarrow> byte list \<Rightarrow> py_exception + dump_state" where
  "dump_scan L rom_data =
     (case collect_pointers rom_data (scan_offsets (length rom_data)) of
        Inl e \<Rightarrow> Inl e
      | Inr all_pointers \<Rightarrow> Inr (scan_entries L rom_data initial_dump_state all_pointers))"

subsection \<open>Mode \<open>tables\<close>\<close>

datatype table_type = Standard | Alternating

definition pointer_tables :: "(nat \<times> nat \<times> table_type) list" where
  "pointer_tables =
     [(0x10F488, 0x10FE50, Standard),
      (0x114D50, 0x1150D4, Standard),
      (0x11603C, 0x11625C, Alternating),
      (0x116AFC, 0x11707C, Alternating),
      (0x1179CC, 0x117B44, Alternating),
      (0x117CCC, 0x117DA8, Standard)]"

definition entry_size :: "table_type \<Rightarrow> nat" where
  "entry_size table_type = (if table_type = Standard then 8 else 16)"

text \<open>The body of the \<open>while\<close> loop once four pointer bytes were read.\<close>

definition table_entry :: "pylib \<Rightarrow> byte list \<Rightarrow> dump_state \<Rightarrow> nat \<Rightarrow> nat \<Rightarrow> dump_state" where
  "table_entry L rom_data st current_offset address =
     (if 0x08000000 \<le> address \<and> address < 0x09000000 then
        (let file_offset = address - 0x08000000
         in if file_offset < length rom_data \<and> file_offset \<ge> OFFSET_MIN_VALID then
              (let text_string = read_string_from L rom_data file_offset terminator
               in if is_valid_string L text_string then
                    (case seen_text_offsets st file_offset of
                       Some original_id \<Rightarrow>
                         st \<lparr> output_file := output_file st @
                                 [DuplicateBlock (string_id_counter st) current_offset file_offset original_id],
                              string_id_counter := string_id_counter st + 1 \<rparr>
                     | None \<Rightarrow>
                         st \<lparr> seen_text_offsets := (seen_text_offsets st)(file_offset \<mapsto> string_id_counter st),
                              output_file := output_file st @
                                [TextBlock (string_id_counter st) current_offset file_offset (the text_string)],
                              string_id_counter := string_id_counter st + 1 \<rparr>)
                  else st)
            else st)
      else st)"

function table_loop ::
  "pylib \<Rightarrow> byte list \<Rightarrow> table_type \<Rightarrow> nat \<Rightarrow> nat \<Rightarrow> dump_state \<Rightarrow> py_exception + dump_state" where
  "table_loop L rom_data table_type end_offset current_offset st =
     (if current_offset < end_offset then
        (let pointer_bytes = slice rom_data current_offset (current_offset + 4)
         in if length pointer_bytes < 4 then Inr st
            else (case unpack_le32 pointer_bytes of
                    Inl e \<Rightarrow> Inl e
                  | Inr address \<Rightarrow>
                      table_loop L rom_data table_type end_offset
                        (current_offset + entry_size table_type)
                        (table_entry L rom_data st current_offset address)))
      else Inr st)"
  by pat_completeness auto
termination
  by (relation "measure (\<lambda>(L, rom_data, table_type, end_offset, current_offset, st). end_offset - current_offset)")
    (auto simp: entry_size_def)

declare table_loop.simps [simp del]

fun dump_tables_from ::
  "pylib \<Rightarrow> byte list \<Rightarrow> dump_state \<Rightarrow> (nat \<times> nat \<times> table_type) list \<Rightarrow> py_exception + dump_state" where
  "dump_tables_from L rom_data st [] = Inr st"
| "dump_tables_from L rom_data st ((start_offset, end_offset, table_type) # tables) =
     (case table_loop L rom_data table_type end_offset start_offset st of
        Inl e \<Rightarrow> Inl e
      | Inr st' \<Rightarrow> dump_tables_from L rom_data st' tables)"

definition dump_tables :: "pylib \<Rightarrow> byte list \<Rightarrow> py_exception + dump_state" where
  "dump_tables L rom_data = dump_tables_from L rom_data initial_dump_state pointer_tables"

section \<open>repack.py: \<open>encode_string\<close>\<close>

definition TAG_MAP :: "(ustring \<times> byte list) list" where
  "TAG_MAP = []"

text \<open>
  The hexadecimal tag \<open><\$\s*([0-9A-F\s]+)\s*\$>\<close> at the head of \<open>s\<close>: the result
  is the whole match, the text of the inner group, and the text after the match. The
  run between \<open><$\<close> and \<open>$>\<close> is one or more characters of \<open>[0-9A-F\s]\<close>; the first
  \<open>\s*\<close> takes its leading white space and the group the rest, unless the run is
  all white space, where backtracking leaves its last character to the group.
\<close>

definition hex_tag_char :: "nat \<Rightarrow> bool" where
  "hex_tag_char c = ((0x30 \<le> c \<and> c \<le> 0x39) \<or> (0x41 \<le> c \<and> c \<le> 0x46) \<or> is_space c)"

definition match_hex_tag :: "ustring \<Rightarrow> (ustring \<times> ustring \<times> ustring) option" where
  "match_hex_tag s =
     (case s of
        a # b # t \<Rightarrow>
          (let r = takeWhile hex_tag_char t; t' = dropWhile hex_tag_char t
           in if a = 0x3C \<and> b = 0x24 \<and> r \<noteq> [] \<and> take 2 t' = [0x24, 0x3E]
              then Some ([0x3C, 0x24] @ r @ [0x24, 0x3E],
                         (if list_all is_space r then [last r] else dropWhile is_space r),
                         drop 2 t')
              else None)
      | _ \<Rightarrow> None)"

text \<open>
  \<open>combined_pattern.split(processed_text)\<close>. With \<open>TAG_MAP\<close> empty the pattern is
  \<open>(<\$\s*([0-9A-F\s]+)\s*\$>|)\<close>: two groups, and an empty second alternative, so it
  matches at every position. \<open>re.split\<close> returns, for each match, the text since the
  previous match and then the text of both groups (\<open>None\<close> for a group that did not
  take part); an empty match is not accepted directly after an empty match at the
  same position (\<open>must_advance\<close>). \<open>piece\<close> is the text since the previous match.
\<close>

function re_split :: "ustring \<Rightarrow> ustring \<Rightarrow> bool \<Rightarrow> ustring option list" where
  "re_split piece s must_advance =
     (case match_hex_tag s of
        Some (whole, grp, rest) \<Rightarrow> Some piece # Some whole # Some grp # re_split [] rest False
      | None \<Rightarrow>
          (if \<not> must_advance then Some piece # Some [] # None # re_split [] s True
           else (case s of
                   [] \<Rightarrow> [Some piece]
                 | c # cs \<Rightarrow> re_split (piece @ [c]) cs False)))"
  by pat_completeness auto
termination
proof (relation "measure (\<lambda>(piece, s, must_advance). 2 * length s + (if must_advance then 0 else 1))")
  show "wf (measure (\<lambda>(piece :: ustring, s :: ustring, must_advance). 2 * length s + (if must_advance then 0 else 1)))"
    by simp
next
  fix piece s :: ustring and must_advance :: bool and x :: "ustring \<times> ustring \<times> ustring"
    and whole :: ustring and y :: "ustring \<times> ustring" and grp rest :: ustring
  assume "match_hex_tag s = Some x" and "(whole, y) = x" and "(grp, rest) = y"
  then have "match_hex_tag s = Some (whole, grp, rest)"
    by simp
  moreover have "length (dropWhile P t) - 2 < Suc (Suc (length t))" for P and t :: ustring
    using length_dropWhile_le [of P t] by arith
  ultimately have "length rest < length s"
    by (auto simp: match_hex_tag_def Let_def split: list.splits if_splits)
  then show "(([], rest, False), (piece, s, must_advance))
      \<in> measure (\<lambda>(piece, s, must_advance). 2 * length s + (if must_advance then 0 else 1))"
    by simp
next
  fix piece s :: ustring and must_advance :: bool
  assume "\<not> must_advance"
  then show "(([], s, True), (piece, s, must_advance))
      \<in> measure (\<lambda>(piece, s, must_advance). 2 * length s + (if must_advance then 0 else 1))"
    by simp
next
  fix piece s :: ustring and must_advance :: bool and c :: nat and cs :: ustring
  assume "s = c # cs"
  then show "((piece @ [c], cs, False), (piece, s, must_advance))
      \<in> measure (\<lambda>(piece, s, must_advance). 2 * length s + (if must_advance then 0 else 1))"
    by simp
qed

declare re_split.simps [simp del]

text \<open>The body of the loop over \<open>parts\<close>: the bytes so far and the warnings printed
  so far, then one part.\<close>

definition startswith :: "ustring \<Rightarrow> ustring \<Rightarrow> bool" where
  "startswith s p = (take (length p) s = p)"

definition endswith :: "ustring \<Rightarrow> ustring \<Rightarrow> bool" where
  "endswith s p = (length p \<le> length s \<and> drop (length s - length p) s = p)"

definition encode_part ::
  "pylib \<Rightarrow> byte list \<times> ustring list \<Rightarrow> ustring option \<Rightarrow> py_exception + (byte list \<times> ustring list)" where
  "encode_part L acc part_opt =
     (case acc of (encoded_bytes, warnings) \<Rightarrow>
        (case part_opt of
           None \<Rightarrow> Inr acc
         | Some part \<Rightarrow>
             if part = [] then Inr acc
             else (case map_of TAG_MAP part of
                     Some bs \<Rightarrow> Inr (encoded_bytes @ bs, warnings)
                   | None \<Rightarrow>
                       if startswith part (ustr ''<$'') \<and> endswith part (ustr ''$>'') then
                         (let hex_string = filter (\<lambda>c. c \<noteq> 0x20) (strip (slice part 2 (length part - 2)))
                          in (case fromhex hex_string of
                                Inl e \<Rightarrow> Inl e
                              | Inr bs \<Rightarrow> Inr (encoded_bytes @ bs, warnings)))
                       else (case shift_jis_encode_replace L part of
                               Inr bs \<Rightarrow> Inr (encoded_bytes @ bs, warnings)
                             | Inl e \<Rightarrow> Inr (encoded_bytes, warnings @ [take 20 part])))))"

fun encode_parts ::
  "pylib \<Rightarrow> byte list \<times> ustring list \<Rightarrow> ustring option list \<Rightarrow> py_exception + (byte list \<times> ustring list)" where
  "encode_parts L acc [] = Inr acc"
| "encode_parts L acc (part # parts) =
     (case encode_part L acc part of
        Inl e \<Rightarrow> Inl e
      | Inr acc' \<Rightarrow> encode_parts L acc' parts)"

text \<open>\<open>encode_string\<close>: the encoded bytes with the terminator, and the warnings
  printed on the way; \<open>Inl\<close> when \<open>bytes.fromhex\<close> raises.\<close>

definition encode_string :: "pylib \<Rightarrow> ustring \<Rightarrow> py_exception + (byte list \<times> ustring list)" where
  "encode_string L text_string =
     (let processed_text = map (\<lambda>c. if c = 0x0A then unat newline_char else c) text_string;
          parts = re_split [] processed_text False
      in (case encode_parts L ([], []) parts of
            Inl e \<Rightarrow> Inl e
          | Inr (encoded_bytes, warnings) \<Rightarrow> Inr (encoded_bytes @ [terminator], warnings)))"

section \<open>repack.py: the two passes\<close>

definition free_space_start_offset :: nat where
  "free_space_start_offset = 0x79D6D8"

definition ROM_END_OFFSET :: nat where
  "ROM_END_OFFSET = 0x7FFFFF"

text \<open>An entry of the parsed text file.\<close>

datatype entry =
    TextEntry (entry_id: nat) (entry_pointer: nat) nat ustring
  | DuplicateEntry (entry_id: nat) (entry_pointer: nat) nat

record repack_state =
  rom_data :: "byte list"
  current_free_space_offset :: nat
  repointed_locations :: "nat \<rightharpoonup> nat"

definition initial_repack_state :: "byte list \<Rightarrow> repack_state" where
  "initial_repack_state rom =
     \<lparr> rom_data = rom, current_free_space_offset = free_space_start_offset,
       repointed_locations = Map.empty \<rparr>"

text \<open>\<open>buf[a:b] = bs\<close> on a \<open>bytearray\<close>, for \<open>a \<le> b\<close>: both bounds are clipped to the
  length, so a slice past the end appends.\<close>

definition slice_assign :: "byte list \<Rightarrow> nat \<Rightarrow> nat \<Rightarrow> byte list \<Rightarrow> byte list" where
  "slice_assign buf a b bs = take a buf @ bs @ drop b buf"

text \<open>\<open>buf[i] = v\<close>: \<open>IndexError\<close> outside the buffer.\<close>

definition set_item :: "byte list \<Rightarrow> nat \<Rightarrow> byte \<Rightarrow> py_exception + byte list" where
  "set_item buf i v = (if i < length buf then Inr (buf[i := v]) else Inl IndexError)"

fun fill_terminators :: "byte list \<Rightarrow> nat \<Rightarrow> nat list \<Rightarrow> py_exception + byte list" where
  "fill_terminators buf original_offset [] = Inr buf"
| "fill_terminators buf original_offset (i # rest) =
     (case set_item buf (original_offset + i) terminator of
        Inl e \<Rightarrow> Inl e
      | Inr buf' \<Rightarrow> fill_terminators buf' original_offset rest)"

text \<open>\<open>original_length\<close> as the first pass computes it, from the buffer it is given.\<close>

definition original_length :: "byte list \<Rightarrow> nat \<Rightarrow> nat" where
  "original_length buf original_offset =
     (case find_byte buf terminator original_offset of
        Some original_end \<Rightarrow> (original_end - original_offset) + 1
      | None \<Rightarrow> 0)"

text \<open>The body of the first pass. \<open>exit()\<close> is the exception \<open>SystemExit\<close>.\<close>

definition first_pass_entry :: "pylib \<Rightarrow> repack_state \<Rightarrow> entry \<Rightarrow> py_exception + repack_state" where
  "first_pass_entry L st e =
     (case e of
        DuplicateEntry _ _ _ \<Rightarrow> Inr st
      | TextEntry ident pointer_offset original_offset txt \<Rightarrow>
          (let orig_length = original_length (rom_data st) original_offset
           in (case encode_string L txt of
                 Inl ex \<Rightarrow> Inl ex
               | Inr (new_text_bytes, warnings) \<Rightarrow>
                   (let new_length = length new_text_bytes
                    in if new_length \<le> orig_length then
                         (case fill_terminators
                                 (slice_assign (rom_data st) original_offset (original_offset + new_length) new_text_bytes)
                                 original_offset [new_length ..< orig_length] of
                            Inl ex \<Rightarrow> Inl ex
                          | Inr buf \<Rightarrow>
                              Inr (st \<lparr> rom_data := buf,
                                        repointed_locations := (repointed_locations st)(ident \<mapsto> original_offset) \<rparr>))
                       else if current_free_space_offset st + new_length > ROM_END_OFFSET then Inl SystemExit
                       else
                         Inr (st \<lparr> rom_data := slice_assign (rom_data st) (current_free_space_offset st)
                                                   (current_free_space_offset st + new_length) new_text_bytes,
                                   repointed_locations :=
                                     (repointed_locations st)(ident \<mapsto> current_free_space_offset st),
                                   current_free_space_offset := current_free_space_offset st + new_length \<rparr>)))))"

fun first_pass :: "pylib \<Rightarrow> repack_state \<Rightarrow> entry list \<Rightarrow> py_exception + repack_state" where
  "first_pass L st [] = Inr st"
| "first_pass L st (e # entries) =
     (case first_pass_entry L st e of
        Inl ex \<Rightarrow> Inl ex
      | Inr st' \<Rightarrow> first_pass L st' entries)"

text \<open>\<open>struct.pack('<I', v)\<close>; \<open>struct.error\<close> when \<open>v\<close> does not fit 32 bits.\<close>

definition pack_le32 :: "nat \<Rightarrow> py_exception + byte list" where
  "pack_le32 v =
     (if v < 0x100000000
      then Inr [of_nat (v mod 0x100), of_nat (v div 0x100 mod 0x100),
                of_nat (v div 0x10000 mod 0x100), of_nat (v div 0x1000000 mod 0x100)]
      else Inl StructError)"

text \<open>The body of the second pass; the second component counts the warnings printed.\<close>

definition second_pass_entry ::
  "repack_state \<times> nat list \<Rightarrow> entry \<Rightarrow> py_exception + (repack_state \<times> nat list)" where
  "second_pass_entry acc e =
     (case acc of (st, warned) \<Rightarrow>
        (let pointer_offset = entry_pointer e;
             target_id = (case e of DuplicateEntry _ _ orig_id \<Rightarrow> orig_id | TextEntry ident _ _ _ \<Rightarrow> ident)
         in (case repointed_locations st target_id of
               Some new_text_location \<Rightarrow>
                 (case pack_le32 (0x08000000 + new_text_location) of
                    Inl ex \<Rightarrow> Inl ex
                  | Inr new_pointer_bytes \<Rightarrow>
                      Inr (st \<lparr> rom_data := slice_assign (rom_data st) pointer_offset (pointer_offset + 4)
                                                new_pointer_bytes \<rparr>, warned))
             | None \<Rightarrow> Inr (st, warned @ [entry_id e]))))"

fun second_pass ::
  "repack_state \<times> nat list \<Rightarrow> entry list \<Rightarrow> py_exception + (repack_state \<times> nat list)" where
  "second_pass acc [] = Inr acc"
| "second_pass acc (e # entries) =
     (case second_pass_entry acc e of
        Inl ex \<Rightarrow> Inl ex
      | Inr acc' \<Rightarrow> second_pass acc' entries)"

text \<open>The main script for a ROM and the parsed entries: \<open>Inr\<close> is the image written to
  the new ROM file; with \<open>Inl\<close> the script has ended before the file is opened.\<close>

definition repack :: "pylib \<Rightarrow> byte list \<Rightarrow> entry list \<Rightarrow> py_exception + byte list" where
  "repack L rom entries =
     (case first_pass L (initial_repack_state rom) entries of
        Inl ex \<Rightarrow> Inl ex
      | Inr st \<Rightarrow>
          (case second_pass (st, []) entries of
             Inl ex \<Rightarrow> Inl ex
           | Inr (st', warned) \<Rightarrow> Inr (rom_data st')))"

section \<open>A fragment of the library tables\<close>

text \<open>
  Single bytes and undecodable bytes never consult the tables. Of the double-byte
  characters this fragment has the hiragana row only: the bytes \<open>82 9F\<close> to \<open>82 F1\<close>
  are \<open>U+3041\<close> to \<open>U+3093\<close>, all of them alphanumeric.
\<close>

definition hiragana_lib :: pylib where
  "hiragana_lib =
     \<lparr> dbcs_decode = (\<lambda>l t. if l = 0x82 \<and> 0x9F \<le> unat t \<and> unat t \<le> 0xF1
                             then Some (0x3041 + (unat t - 0x9F)) else None),
       dbcs_encode = (\<lambda>u. if 0x3041 \<le> u \<and> u \<le> 0x3093
                           then Some (0x82, of_nat (0x9F + (u - 0x3041))) else None),
       isalnum = (\<lambda>c. 0x3041 \<le> c \<and> c \<le> 0x3093) \<rparr>"

section \<open>Predicates and sample data for the properties\<close>

text \<open>A duplicate block refers to an id below its own.\<close>

definition refers_back :: "block \<Rightarrow> bool" where
  "refers_back b =
     (case b of DuplicateBlock i _ _ original_id \<Rightarrow> original_id < i | TextBlock _ _ _ _ \<Rightarrow> True)"

text \<open>The invariant of both extraction loops: the counter is the number of blocks
  written, the ids are \<open>0, 1, 2, \<dots>\<close> in the order of writing, duplicates refer back,
  and every offset in the index or in a block holds a text the classifier accepts.\<close>

definition dump_inv :: "pylib \<Rightarrow> byte list \<Rightarrow> dump_state \<Rightarrow> bool" where
  "dump_inv L rom st \<longleftrightarrow>
     string_id_counter st = length (output_file st) \<and>
     map block_id (output_file st) = [0 ..< length (output_file st)] \<and>
     list_all refers_back (output_file st) \<and>
     (\<forall>off i. seen_text_offsets st off = Some i \<longrightarrow>
        i < string_id_counter st \<and> is_valid_string L (read_string_from L rom off terminator)) \<and>
     (\<forall>b \<in> set (output_file st). is_valid_string L (read_string_from L rom (block_offset b) terminator))"

text \<open>The text \<open>Hello\<close> with its terminator, alone and behind \<open>0x10C000\<close> zero bytes.\<close>

definition hello_rom :: "byte list" where
  "hello_rom = [0x48, 0x65, 0x6C, 0x6C, 0x6F, 0x00]"

definition padded_rom :: "byte list" where
  "padded_rom = replicate 0x10C000 0 @ hello_rom"

text \<open>\<open>padded_rom\<close> followed by a table of two rows of eight bytes at \<open>0x10C008\<close>,
  each row a pointer to the text at \<open>0x10C000\<close>.\<close>

definition table_rom :: "byte list" where
  "table_rom = padded_rom @ [0x00, 0x00,
     0x00, 0xC0, 0x10, 0x08, 0x00, 0x00, 0x00, 0x00,
     0x00, 0xC0, 0x10, 0x08, 0x00, 0x00, 0x00, 0x00]"


text \<open>No hexadecimal tag starts anywhere in the text.\<close>

fun no_hex_tag :: "ustring \<Rightarrow> bool" where
  "no_hex_tag [] = True"
| "no_hex_tag (c # cs) = (match_hex_tag (c # cs) = None \<and> no_hex_tag cs)"

text \<open>The bytes that \<open>shift_jis_encode_replace\<close> returns.\<close>

definition replaced_bytes :: "pylib \<Rightarrow> ustring \<Rightarrow> byte list" where
  "replaced_bytes L s = concat (map (\<lambda>u. case sjis_encode_char L u of None \<Rightarrow> [0x3F] | Some bs \<Rightarrow> bs) s)"

text \<open>The text \<open>Hello World\<close> with its terminator; offset 6 is the text \<open>World\<close>.\<close>

definition world_rom :: "byte list" where
  "world_rom = [0x48, 0x65, 0x6C, 0x6C, 0x6F, 0x20, 0x57, 0x6F, 0x72, 0x6C, 0x64, 0x00]"

text \<open>Decoding from \<open>pos\<close> on meets no undecodable subsequence: the error handler is
  never called.\<close>

function decodes_cleanly :: "pylib \<Rightarrow> byte list \<Rightarrow> nat \<Rightarrow> bool" where
  "decodes_cleanly L obj pos =
     (if length obj \<le> pos then True
      else (case sjis_decode_step L (drop pos obj) of
              Some (u, n) \<Rightarrow> decodes_cleanly L obj (pos + n)
            | None \<Rightarrow> False))"
  by pat_completeness auto
termination
proof (relation "measure (\<lambda>(L, obj, pos). length obj - pos)")
  show "wf (measure (\<lambda>(L, obj, pos). length obj - pos))"
    by simp
next
  fix L :: pylib and obj :: "byte list" and pos :: nat and x :: "nat \<times> nat" and u n :: nat
  assume "\<not> length obj \<le> pos" and "sjis_decode_step L (drop pos obj) = Some x" and "(u, n) = x"
  then have "0 < n"
    by (cases "drop pos obj") (auto split: if_splits list.splits option.splits)
  with \<open>\<not> length obj \<le> pos\<close>
  show "((L, obj, pos + n), (L, obj, pos)) \<in> measure (\<lambda>(L, obj, pos). length obj - pos)"
    by simp
qed

declare decodes_cleanly.simps [simp del]

text \<open>The tables of the codec agree: a double-byte character is encoded by the table,
  and to the two bytes it was decoded from.\<close>

definition tables_agree :: "pylib \<Rightarrow> bool" where
  "tables_agree L \<longleftrightarrow>
     (\<forall>l t u. dbcs_decode L l t = Some u \<longrightarrow>
        dbcs_encode L u = Some (l, t) \<and> 0x80 \<le> u \<and> u \<noteq> 0xA5 \<and> u \<noteq> 0x203E
        \<and> \<not> (0xFF61 \<le> u \<and> u \<le> 0xFF9F))"

text \<open>\<open>0x10C000\<close> zero bytes, two hiragana, and as the last word of the image a
  pointer to them; its first byte is their terminator.\<close>

definition last_word_rom :: "byte list" where
  "last_word_rom = replicate 0x10C000 0 @ [0x82, 0xA0, 0x82, 0xA0, 0x00, 0xC0, 0x10, 0x08]"

section \<open>Evaluation on the sample data\<close>

lemmas classifier_defs =
  is_valid_string_def strip_def is_space_def MIN_CHARS_def MAX_TOTAL_LENGTH_def
  match_repl_token_def word_char_def latin_digit_def printable_char_def japanese_char_def
  MAX_CONTROL_CHAR_FRAC_def MIN_JP_CHARS_OVERRIDE_def MIN_LATIN_DIGITS_def MIN_PRINTABLE_FRAC_def
  MAX_REPLACEMENT_FRAC_def MIN_NON_JP_LENGTH_def is_repeated_pattern_def
  is_single_japanese_char_repetition_def starts_jp_then_latin_def starts_short_latin_then_other_def
  Let_def

lemmas decoder_defs =
  read_string_from_def find_byte_def terminator_def slice_def bytes_replace_def newline_char_def
  hex_upper_def hex_digit_upper_def sjis_lead_byte_def sjis_trail_byte_def

lemma hello_text_valid: "is_valid_string L (Some [0x48, 0x65, 0x6C, 0x6C, 0x6F])"
  by (simp add: classifier_defs findall_repl_tokens.simps)

lemma read_hello_rom: "read_string_from L hello_rom 0 terminator = Some [0x48, 0x65, 0x6C, 0x6C, 0x6F]"
  by (simp add: hello_rom_def decoder_defs shift_jis_decode.simps)

lemma scan_hello:
  "scan_entries L hello_rom initial_dump_state [(0x100, 0), (0x200, 0)] =
     \<lparr> string_id_counter = 2, seen_text_offsets = [0 \<mapsto> 0],
       output_file = [TextBlock 0 0x100 0 [0x48, 0x65, 0x6C, 0x6C, 0x6F], DuplicateBlock 1 0x200 0 0] \<rparr>"
  by (simp add: scan_entry_def initial_dump_state_def read_hello_rom hello_text_valid)

section \<open>The invariant of the extraction loops\<close>

lemma dump_inv_initial: "dump_inv L rom initial_dump_state"
  by (simp add: dump_inv_def initial_dump_state_def)

lemma dump_inv_scan_entry:
  assumes "dump_inv L rom st"
  shows "dump_inv L rom (scan_entry L rom st pointer_info)"
proof (cases pointer_info)
  case (Pair ptr_offset file_offset)
  show ?thesis
  proof (cases "seen_text_offsets st file_offset")
    case None
    with assms Pair show ?thesis
      by (auto simp: scan_entry_def dump_inv_def Let_def refers_back_def less_Suc_eq)
  next
    case (Some original_id)
    with assms Pair show ?thesis
      by (auto simp: scan_entry_def dump_inv_def refers_back_def less_Suc_eq)
  qed
qed

lemma dump_inv_scan_entries:
  "dump_inv L rom st \<Longrightarrow> dump_inv L rom (scan_entries L rom st all_pointers)"
  by (induction all_pointers arbitrary: st) (simp_all add: dump_inv_scan_entry)

lemma dump_inv_table_entry:
  assumes "dump_inv L rom st"
  shows "dump_inv L rom (table_entry L rom st current_offset address)"
proof (cases "seen_text_offsets st (address - 0x08000000)")
  case None
  with assms show ?thesis
    by (auto simp: table_entry_def dump_inv_def Let_def refers_back_def less_Suc_eq)
next
  case (Some original_id)
  with assms show ?thesis
    by (auto simp: table_entry_def dump_inv_def Let_def refers_back_def less_Suc_eq)
qed

lemma dump_inv_table_loop:
  "dump_inv L rom st \<Longrightarrow> table_loop L rom table_type end_offset current_offset st = Inr st'
     \<Longrightarrow> dump_inv L rom st'"
proof (induction L rom table_type end_offset current_offset st rule: table_loop.induct)
  case (1 L rom_data table_type end_offset current_offset st)
  show ?case
  proof (cases "current_offset < end_offset \<and> \<not> length (slice rom_data current_offset (current_offset + 4)) < 4")
    case False
    with "1.prems" show ?thesis
      by (auto simp: table_loop.simps [of L rom_data table_type end_offset current_offset st] Let_def
          split: if_splits)
  next
    case True
    then obtain address where a: "unpack_le32 (slice rom_data current_offset (current_offset + 4)) = Inr address"
      using "1.prems"(2)
      by (cases "unpack_le32 (slice rom_data current_offset (current_offset + 4))")
        (auto simp: table_loop.simps [of L rom_data table_type end_offset current_offset st] Let_def)
    with True "1.prems"(2)
    have "table_loop L rom_data table_type end_offset (current_offset + entry_size table_type)
            (table_entry L rom_data st current_offset address) = Inr st'"
      by (simp add: table_loop.simps [of L rom_data table_type end_offset current_offset st] Let_def)
    moreover have "dump_inv L rom_data (table_entry L rom_data st current_offset address)"
      using "1.prems"(1) by (rule dump_inv_table_entry)
    ultimately show ?thesis
      using "1.IH" [OF _ refl _ a] True by simp
  qed
qed

lemma dump_inv_tables_from:
  "dump_inv L rom st \<Longrightarrow> dump_tables_from L rom st tables = Inr st' \<Longrightarrow> dump_inv L rom st'"
proof (induction tables arbitrary: st)
  case Nil
  then show ?case by simp
next
  case (Cons t tables)
  obtain start_offset end_offset table_type where t: "t = (start_offset, end_offset, table_type)"
    by (cases t) auto
  with Cons.prems(2) obtain st1 where
    "table_loop L rom table_type end_offset start_offset st = Inr st1"
    "dump_tables_from L rom st1 tables = Inr st'"
    by (auto split: sum.splits)
  with Cons.prems(1) Cons.IH show ?case
    by (blast intro: dump_inv_table_loop)
qed

section \<open>Properties of the extraction run\<close>

text \<open>
  C4. Across one extraction run, in either mode, the ids of the blocks written
  (text blocks and duplicate blocks together) are \<open>0, 1, 2, \<dots>\<close> in the order of
  writing, without gaps, and every duplicate block names an id below its own. The
  scan loop is taken over any list of pointers and the table loop over any list of
  tables, which covers the pointers and the tables of the script.
\<close>

theorem C4_ids_consecutive_duplicates_refer_back:
  "(st = scan_entries L rom initial_dump_state all_pointers
      \<or> dump_tables_from L rom initial_dump_state tables = Inr st)
   \<longrightarrow> map block_id (output_file st) = [0 ..< length (output_file st)]
       \<and> list_all refers_back (output_file st)"
  using dump_inv_scan_entries [OF dump_inv_initial, of L rom all_pointers]
    dump_inv_tables_from [OF dump_inv_initial, of L rom tables st]
  by (auto simp: dump_inv_def)

theorem C4_ids_consecutive_witness:
  "map block_id (output_file (scan_entries hiragana_lib hello_rom initial_dump_state [(0x100, 0), (0x200, 0)])) = [0, 1]
   \<and> list_all refers_back (output_file (scan_entries hiragana_lib hello_rom initial_dump_state [(0x100, 0), (0x200, 0)]))
   \<and> output_file (scan_entries hiragana_lib hello_rom initial_dump_state [(0x100, 0), (0x200, 0)]) =
       [TextBlock 0 0x100 0 (ustr ''Hello''), DuplicateBlock 1 0x200 0 0]"
  using C4_ids_consecutive_duplicates_refer_back
    [of "scan_entries hiragana_lib hello_rom initial_dump_state [(0x100, 0), (0x200, 0)]"
        hiragana_lib hello_rom "[(0x100, 0), (0x200, 0)]" "[]"]
  unfolding scan_hello by (simp add: ustr_def)

section \<open>Further evaluation on the sample data\<close>

lemma absent_text_invalid: "\<not> is_valid_string L None"
  by (simp add: is_valid_string_def)

lemma read_padded_rom: "read_string_from L padded_rom 0x10C000 terminator = Some [0x48, 0x65, 0x6C, 0x6C, 0x6F]"
  by (simp add: padded_rom_def hello_rom_def decoder_defs shift_jis_decode.simps)

lemma find_in_None: "b \<notin> set xs \<Longrightarrow> find_in xs b i = None"
  by (induction xs arbitrary: i) auto

lemma read_string_from_absent:
  "length data \<le> offset \<or> t \<notin> set (drop offset data) \<Longrightarrow> read_string_from L data offset t = None"
  by (auto simp: read_string_from_def find_byte_def find_in_None)

lemma read_table_rom: "read_string_from L table_rom 0x10C000 terminator = Some [0x48, 0x65, 0x6C, 0x6C, 0x6F]"
  by (simp add: table_rom_def padded_rom_def hello_rom_def decoder_defs shift_jis_decode.simps)

lemma length_table_rom: "length table_rom = 0x10C018"
  by (simp add: table_rom_def padded_rom_def hello_rom_def)

lemma row1: "slice table_rom 0x10C008 0x10C00C = [0x00, 0xC0, 0x10, 0x08]"
  by (simp add: table_rom_def padded_rom_def hello_rom_def slice_def)

lemma row2: "slice table_rom 0x10C010 0x10C014 = [0x00, 0xC0, 0x10, 0x08]"
  by (simp add: table_rom_def padded_rom_def hello_rom_def slice_def)

lemma unpack_row: "unpack_le32 [0x00, 0xC0, 0x10, 0x08] = Inr 0x0810C000"
  by (simp add: unpack_le32_def)

lemma table_rom_entry1:
  "table_entry L table_rom initial_dump_state 0x10C008 0x0810C000 =
     \<lparr> string_id_counter = 1, seen_text_offsets = [0x10C000 \<mapsto> 0],
       output_file = [TextBlock 0 0x10C008 0x10C000 [0x48, 0x65, 0x6C, 0x6C, 0x6F]] \<rparr>"
  by (simp add: table_entry_def initial_dump_state_def read_table_rom hello_text_valid
      length_table_rom OFFSET_MIN_VALID_def)

lemma table_rom_entry2:
  "table_entry L table_rom
     \<lparr> string_id_counter = 1, seen_text_offsets = [0x10C000 \<mapsto> 0],
       output_file = [TextBlock 0 0x10C008 0x10C000 [0x48, 0x65, 0x6C, 0x6C, 0x6F]] \<rparr>
     0x10C010 0x0810C000 =
     \<lparr> string_id_counter = 2, seen_text_offsets = [0x10C000 \<mapsto> 0],
       output_file = [TextBlock 0 0x10C008 0x10C000 [0x48, 0x65, 0x6C, 0x6C, 0x6F],
                      DuplicateBlock 1 0x10C010 0x10C000 0] \<rparr>"
  by (simp add: table_entry_def read_table_rom hello_text_valid length_table_rom OFFSET_MIN_VALID_def)

lemma table_run:
  "dump_tables_from L table_rom initial_dump_state [(0x10C008, 0x10C018, Standard)] =
     Inr \<lparr> string_id_counter = 2, seen_text_offsets = [0x10C000 \<mapsto> 0],
           output_file = [TextBlock 0 0x10C008 0x10C000 [0x48, 0x65, 0x6C, 0x6C, 0x6F],
                          DuplicateBlock 1 0x10C010 0x10C000 0] \<rparr>"
proof -
  have 3: "table_loop L table_rom Standard 0x10C018 0x10C018 st = Inr st" for st
    by (simp add: table_loop.simps [of _ _ _ _ "0x10C018"])
  have 2: "table_loop L table_rom Standard 0x10C018 0x10C010 st =
      Inr (table_entry L table_rom st 0x10C010 0x0810C000)" for st
    by (simp add: table_loop.simps [of _ _ _ _ "0x10C010"] row2 unpack_row entry_size_def 3)
  have 1: "table_loop L table_rom Standard 0x10C018 0x10C008 st =
      Inr (table_entry L table_rom (table_entry L table_rom st 0x10C008 0x0810C000) 0x10C010 0x0810C000)" for st
    by (simp add: table_loop.simps [of _ _ _ _ "0x10C008"] row1 unpack_row entry_size_def 2)
  show ?thesis
    by (simp only: dump_tables_from.simps 1 table_rom_entry1 table_rom_entry2 sum.case)
qed

text \<open>
  C7. In mode \<open>scan\<close>, when the offset of a pointer is not in the index and the text
  decoded there is rejected by the classifier, the state is left as it was: no block
  is written, the counter does not move, and the offset stays out of the index. A
  later pointer to the same offset therefore meets the state it would have met had
  the dropped pointer never been there, goes through decoding and classification
  again, and, in any image where the classifier accepts the text at that offset, is
  registered as the first block for it, under the id that was not consumed.
\<close>

theorem C7_rejected_candidate_leaves_no_trace:
  assumes "seen_text_offsets st file_offset = None"
    and "\<not> is_valid_string L (read_string_from L rom file_offset terminator)"
  shows "scan_entry L rom st (ptr_offset, file_offset) = st
    \<and> seen_text_offsets (scan_entry L rom st (ptr_offset, file_offset)) file_offset = None
    \<and> scan_entries L rom st ((ptr_offset, file_offset) # (later_ptr, file_offset) # more_pointers) =
        scan_entries L rom st ((later_ptr, file_offset) # more_pointers)
    \<and> (\<forall>rom'. is_valid_string L (read_string_from L rom' file_offset terminator) \<longrightarrow>
          scan_entry L rom' (scan_entry L rom st (ptr_offset, file_offset)) (later_ptr, file_offset) =
            st \<lparr> seen_text_offsets := (seen_text_offsets st)(file_offset \<mapsto> string_id_counter st),
                 output_file := output_file st @
                   [TextBlock (string_id_counter st) later_ptr file_offset
                      (the (read_string_from L rom' file_offset terminator))],
                 string_id_counter := string_id_counter st + 1 \<rparr>)"
  using assms by (simp add: scan_entry_def)

theorem C7_rejected_candidate_witness:
  "scan_entry hiragana_lib [0x41, 0x00] initial_dump_state (0x100, 0) = initial_dump_state
   \<and> scan_entry hiragana_lib hello_rom (scan_entry hiragana_lib [0x41, 0x00] initial_dump_state (0x100, 0)) (0x200, 0) =
       \<lparr> string_id_counter = 1, seen_text_offsets = [0 \<mapsto> 0],
         output_file = [TextBlock 0 0x200 0 (ustr ''Hello'')] \<rparr>"
proof -
  have r: "read_string_from hiragana_lib [0x41, 0x00] 0 terminator = Some [0x41]"
    by (simp add: decoder_defs shift_jis_decode.simps)
  have v: "\<not> is_valid_string hiragana_lib (read_string_from hiragana_lib [0x41, 0x00] 0 terminator)"
    unfolding r by (simp add: classifier_defs findall_repl_tokens.simps)
  have s: "seen_text_offsets initial_dump_state 0 = None"
    by (simp add: initial_dump_state_def)
  have h: "is_valid_string hiragana_lib (read_string_from hiragana_lib hello_rom 0 terminator)"
    by (simp add: read_hello_rom hello_text_valid)
  note t = C7_rejected_candidate_leaves_no_trace [OF s v, of "0x100" "0x200" "[]"]
  from t have 1: "scan_entry hiragana_lib [0x41, 0x00] initial_dump_state (0x100, 0) = initial_dump_state"
    by blast
  from t h have 2:
    "scan_entry hiragana_lib hello_rom (scan_entry hiragana_lib [0x41, 0x00] initial_dump_state (0x100, 0)) (0x200, 0) =
       initial_dump_state \<lparr> seen_text_offsets := (seen_text_offsets initial_dump_state)(0 \<mapsto> string_id_counter initial_dump_state),
         output_file := output_file initial_dump_state @
           [TextBlock (string_id_counter initial_dump_state) 0x200 0 (the (read_string_from hiragana_lib hello_rom 0 terminator))],
         string_id_counter := string_id_counter initial_dump_state + 1 \<rparr>"
    by blast
  from 2 [unfolded 1] show ?thesis
    unfolding 1 by (simp add: read_hello_rom initial_dump_state_def ustr_def)
qed

text \<open>
  C10. \<open>read_string_from\<close> returns \<open>None\<close>, and raises nothing, when the offset is at
  or beyond the end of the image and when no terminator byte occurs at or after the
  offset; an offset of that kind is the text offset of no block written by a run, in
  mode \<open>scan\<close> (over any list of pointers) and in mode \<open>tables\<close> (over any list of
  tables).
\<close>

theorem C10_absent_text_gives_no_block:
  assumes "length data \<le> offset \<or> terminator \<notin> set (drop offset data)"
  shows "read_string_from L data offset terminator = None
    \<and> (\<forall>b \<in> set (output_file (scan_entries L data initial_dump_state all_pointers)). block_offset b \<noteq> offset)
    \<and> (dump_tables_from L data initial_dump_state tables = Inr st \<longrightarrow>
          (\<forall>b \<in> set (output_file st). block_offset b \<noteq> offset))"
proof -
  have none: "read_string_from L data offset terminator = None"
    using assms by (rule read_string_from_absent)
  have no_block: "\<forall>b \<in> set (output_file s). block_offset b \<noteq> offset" if "dump_inv L data s" for s
    using that none absent_text_invalid [of L] by (auto simp: dump_inv_def)
  show ?thesis
    using none no_block [OF dump_inv_scan_entries [OF dump_inv_initial]]
      no_block [OF dump_inv_tables_from [OF dump_inv_initial]]
    by blast
qed

theorem C10_absent_text_witness:
  "read_string_from hiragana_lib [0x48, 0x65, 0x6C, 0x6C, 0x6F] 0 terminator = None
   \<and> read_string_from hiragana_lib hello_rom 6 terminator = None
   \<and> output_file (scan_entries hiragana_lib [0x48, 0x65, 0x6C, 0x6C, 0x6F] initial_dump_state [(0x100, 0)]) = []"
proof -
  have a: "length [0x48, 0x65, 0x6C, 0x6C, 0x6F :: byte] \<le> 0
      \<or> terminator \<notin> set (drop 0 [0x48, 0x65, 0x6C, 0x6C, 0x6F])"
    by (simp add: terminator_def)
  have b: "length hello_rom \<le> 6 \<or> terminator \<notin> set (drop 6 hello_rom)"
    by (simp add: hello_rom_def)
  from C10_absent_text_gives_no_block [OF a, of hiragana_lib "[(0x100, 0)]" "[]" initial_dump_state]
    C10_absent_text_gives_no_block [OF b, of hiragana_lib "[]" "[]" initial_dump_state]
  show ?thesis
    by (simp add: scan_entry_def initial_dump_state_def is_valid_string_def)
qed





section \<open>Encoding a text without hexadecimal tags\<close>

text \<open>Without a tag the pattern matches the empty string at every position, the parts
  are the single characters, and each is encoded on its own.\<close>

lemma match_hex_tag_Nil: "match_hex_tag [] = None"
  by (simp add: match_hex_tag_def)

lemma no_hex_tag_head: "no_hex_tag s \<Longrightarrow> match_hex_tag s = None"
  by (cases s) (simp_all add: match_hex_tag_Nil)

lemma encode_part_skip: "encode_part L acc None = Inr acc" "encode_part L acc (Some []) = Inr acc"
  by (simp_all add: encode_part_def split: prod.splits)

lemma encode_part_single:
  "encode_part L (bs, ws) (Some [c]) = Inr (bs @ replaced_bytes L [c], ws)"
  by (simp add: encode_part_def TAG_MAP_def startswith_def ustr_def shift_jis_encode_replace_def
      replaced_bytes_def)

lemma replaced_bytes_simps:
  "replaced_bytes L [] = []"
  "replaced_bytes L (c # cs) = replaced_bytes L [c] @ replaced_bytes L cs"
  by (simp_all add: replaced_bytes_def)

lemma encode_parts_plain:
  "no_hex_tag s \<Longrightarrow> length piece \<le> 1 \<Longrightarrow> (must_advance \<longrightarrow> piece = []) \<Longrightarrow>
   encode_parts L (bs, ws) (re_split piece s must_advance) =
     Inr (bs @ replaced_bytes L piece @ replaced_bytes L s, ws)"
proof (induction piece s must_advance arbitrary: bs rule: re_split.induct)
  case (1 piece s must_advance)
  have none: "match_hex_tag s = None"
    using "1.prems"(1) by (rule no_hex_tag_head)
  show ?case
  proof (cases must_advance)
    case False
    have piece: "encode_part L (bs, ws) (Some piece) = Inr (bs @ replaced_bytes L piece, ws)"
    proof (cases piece)
      case Nil
      then show ?thesis by (simp add: encode_part_skip replaced_bytes_simps)
    next
      case (Cons c cs)
      with "1.prems"(2) have "piece = [c]" by simp
      then show ?thesis by (simp add: encode_part_single)
    qed
    have "encode_parts L (bs @ replaced_bytes L piece, ws) (re_split [] s True) =
        Inr ((bs @ replaced_bytes L piece) @ replaced_bytes L [] @ replaced_bytes L s, ws)"
      using "1.IH"(1) [OF none False "1.prems"(1)] by simp
    then show ?thesis
      using False none piece
      by (subst re_split.simps) (simp add: encode_part_skip replaced_bytes_simps)
  next
    case True
    with "1.prems"(3) have p: "piece = []" by simp
    show ?thesis
    proof (cases s)
      case Nil
      with True none p show ?thesis
        by (subst re_split.simps) (simp add: encode_part_skip replaced_bytes_simps)
    next
      case (Cons c cs)
      with "1.prems"(1) have "no_hex_tag cs" by simp
      then have "encode_parts L (bs, ws) (re_split (piece @ [c]) cs False) =
          Inr (bs @ replaced_bytes L (piece @ [c]) @ replaced_bytes L cs, ws)"
        using "1.IH"(2) [OF none _ Cons] True p by simp
      with True none p Cons show ?thesis
        by (subst re_split.simps) (simp add: replaced_bytes_simps(1) replaced_bytes_simps(2) [of L c cs])
    qed
  qed
qed

lemma encode_string_plain:
  assumes "no_hex_tag s"
  shows "encode_string L s = Inr (replaced_bytes L s @ [terminator], [])"
proof -
  have "map (\<lambda>c. if c = 0x0A then unat newline_char else c) s = s"
    by (induction s) (simp_all add: newline_char_def)
  then show ?thesis
    using encode_parts_plain [OF assms, of "[]" False L "[]" "[]"]
    by (simp add: encode_string_def replaced_bytes_simps)
qed

section \<open>Properties of the first pass\<close>

lemma first_pass_append:
  "first_pass L st (xs @ ys) =
     (case first_pass L st xs of Inl ex \<Rightarrow> Inl ex | Inr st' \<Rightarrow> first_pass L st' ys)"
  by (induction xs arbitrary: st) (auto split: sum.splits)

lemma first_pass_entry_cursor:
  assumes "current_free_space_offset st \<le> ROM_END_OFFSET"
    and "first_pass_entry L st e = Inr st'"
  shows "current_free_space_offset st' \<le> ROM_END_OFFSET"
  using assms
  by (cases e) (auto simp: first_pass_entry_def Let_def split: sum.splits prod.splits if_splits)

lemma first_pass_cursor:
  "current_free_space_offset st \<le> ROM_END_OFFSET \<Longrightarrow> first_pass L st entries = Inr st'
     \<Longrightarrow> current_free_space_offset st' \<le> ROM_END_OFFSET"
proof (induction entries arbitrary: st)
  case Nil
  then show ?case by simp
next
  case (Cons e entries)
  from Cons.prems(2) obtain st1 where
    "first_pass_entry L st e = Inr st1" "first_pass L st1 entries = Inr st'"
    by (auto split: sum.splits)
  with Cons.prems(1) Cons.IH show ?case
    by (blast intro: first_pass_entry_cursor)
qed

lemma initial_cursor: "current_free_space_offset (initial_repack_state rom) \<le> ROM_END_OFFSET"
  by (simp add: initial_repack_state_def free_space_start_offset_def ROM_END_OFFSET_def)

lemma no_hex_tag_replicate_A: "no_hex_tag (replicate n 0x41)"
  by (induction n) (simp_all add: match_hex_tag_def split: list.splits)

lemma replaced_bytes_replicate_A: "replaced_bytes L (replicate n 0x41) = replicate n 0x41"
  by (induction n) (simp_all add: replaced_bytes_def sjis_encode_char_def)

lemma encode_replicate_A:
  "encode_string L (replicate n 0x41) = Inr (replicate n 0x41 @ [0x00], [])"
  using encode_string_plain [OF no_hex_tag_replicate_A, of L n]
  by (simp add: replaced_bytes_replicate_A terminator_def)

text \<open>
  C3. From the start of the first pass on, the cursor into the free space never
  exceeds \<open>ROM_END_OFFSET\<close>. Whenever the next entry has to be moved (its encoded
  length is above the length of its slot) and the cursor plus the encoded length is
  above \<open>ROM_END_OFFSET\<close>, the entry is answered by \<open>exit()\<close> before any of its bytes
  is written, and the whole script ends with that exception: no image is written to
  the new ROM file, whatever entries come later.
\<close>

theorem C3_free_space_exhaustion_aborts:
  "first_pass L (initial_repack_state rom) earlier = Inr st \<longrightarrow>
     current_free_space_offset st \<le> ROM_END_OFFSET
     \<and> (encode_string L text_string = Inr (new_text_bytes, warnings)
          \<and> original_length (rom_data st) original_offset < length new_text_bytes
          \<and> current_free_space_offset st + length new_text_bytes > ROM_END_OFFSET \<longrightarrow>
        first_pass_entry L st (TextEntry ident pointer_offset original_offset text_string) = Inl SystemExit
        \<and> repack L rom (earlier @ TextEntry ident pointer_offset original_offset text_string # later) = Inl SystemExit)"
proof (intro impI conjI)
  assume run: "first_pass L (initial_repack_state rom) earlier = Inr st"
  then show "current_free_space_offset st \<le> ROM_END_OFFSET"
    using initial_cursor by (rule first_pass_cursor [rotated])
  assume over: "encode_string L text_string = Inr (new_text_bytes, warnings)
          \<and> original_length (rom_data st) original_offset < length new_text_bytes
          \<and> current_free_space_offset st + length new_text_bytes > ROM_END_OFFSET"
  then show abort: "first_pass_entry L st (TextEntry ident pointer_offset original_offset text_string) = Inl SystemExit"
    by (simp add: first_pass_entry_def Let_def)
  show "repack L rom (earlier @ TextEntry ident pointer_offset original_offset text_string # later) = Inl SystemExit"
    using run abort by (simp add: repack_def first_pass_append)
qed

theorem C3_free_space_exhaustion_witness:
  "first_pass hiragana_lib (initial_repack_state hello_rom) [] = Inr (initial_repack_state hello_rom)
   \<and> current_free_space_offset (initial_repack_state hello_rom) \<le> ROM_END_OFFSET
   \<and> original_length (rom_data (initial_repack_state hello_rom)) 0 < length (replicate 0x62928 (0x41 :: byte) @ [0x00])
   \<and> current_free_space_offset (initial_repack_state hello_rom) + length (replicate 0x62928 (0x41 :: byte) @ [0x00]) > ROM_END_OFFSET
   \<and> repack hiragana_lib hello_rom [TextEntry 0 0x100 0 (replicate 0x62928 0x41)] = Inl SystemExit"
proof -
  have e: "encode_string hiragana_lib (replicate 0x62928 0x41) = Inr (replicate 0x62928 0x41 @ [0x00], [])"
    by (rule encode_replicate_A)
  have l: "original_length (rom_data (initial_repack_state hello_rom)) 0 < length (replicate 0x62928 (0x41 :: byte) @ [0x00])"
    by (simp add: original_length_def initial_repack_state_def hello_rom_def find_byte_def terminator_def)
  have c: "current_free_space_offset (initial_repack_state hello_rom) + length (replicate 0x62928 (0x41 :: byte) @ [0x00]) > ROM_END_OFFSET"
    by (simp add: initial_repack_state_def free_space_start_offset_def ROM_END_OFFSET_def)
  have r: "first_pass hiragana_lib (initial_repack_state hello_rom) [] = Inr (initial_repack_state hello_rom)"
    by simp
  from C3_free_space_exhaustion_aborts [where L = hiragana_lib and rom = hello_rom and earlier = "[]"
      and st = "initial_repack_state hello_rom" and text_string = "replicate 0x62928 0x41"
      and new_text_bytes = "replicate 0x62928 0x41 @ [0x00]" and warnings = "[]" and original_offset = 0
      and ident = 0 and pointer_offset = "0x100" and later = "[]"] r e l c
  show ?thesis by simp
qed

section \<open>Evaluation of the encoder and of the passes\<close>

lemmas encoder_defs =
  encode_string_def re_split.simps match_hex_tag_def hex_tag_char_def is_space_def
  encode_part_def TAG_MAP_def startswith_def endswith_def slice_def strip_def hexval_def ascii_space_def
  shift_jis_encode_replace_def sjis_encode_char_def terminator_def newline_char_def ustr_def

lemma encode_Hi: "encode_string L (ustr ''Hi'') = Inr ([0x48, 0x69, 0x00], [])"
  by (simp add: encoder_defs)

lemma encode_World: "encode_string L (ustr ''World'') = Inr ([0x57, 0x6F, 0x72, 0x6C, 0x64, 0x00], [])"
  by (simp add: encoder_defs)

lemma encode_part_warnings:
  "encode_part L (bs, ws) p = Inr (bs', ws') \<Longrightarrow> ws' = ws"
  by (auto simp: encode_part_def shift_jis_encode_replace_def Let_def split: option.splits if_splits sum.splits)

lemma encode_parts_warnings:
  "encode_parts L (bs, ws) ps = Inr (bs', ws') \<Longrightarrow> ws' = ws"
proof (induction ps arbitrary: bs)
  case Nil
  then show ?case by simp
next
  case (Cons p ps)
  from Cons.prems obtain bs1 ws1 where 1: "encode_part L (bs, ws) p = Inr (bs1, ws1)"
    and 2: "encode_parts L (bs1, ws1) ps = Inr (bs', ws')"
    by (auto split: sum.splits)
  from 1 have "ws1 = ws" by (rule encode_part_warnings)
  with 2 Cons.IH show ?case by blast
qed

lemma encode_string_never_warns:
  "encode_string L s = Inr (bs, ws) \<Longrightarrow> ws = []"
  by (auto simp: encode_string_def Let_def split: sum.splits dest: encode_parts_warnings)

text \<open>
  C5. The slot length of an entry is read from the buffer that the first pass is
  writing into. In \<open>Hello World\<close> the slot at offset 6 has six bytes. Once the entry at
  offset 0 has been rewritten as \<open>Hi\<close> and its slot filled with terminators, the
  length computed for offset 6 is one, and the unchanged text \<open>World\<close> is moved to
  the free space; processed alone, the same entry stays at offset 6.
\<close>

theorem C5_slot_length_follows_earlier_writes:
  "original_length world_rom 6 = 6
   \<and> first_pass hiragana_lib (initial_repack_state world_rom) [TextEntry 0 0x100 0 (ustr ''Hi'')] =
       Inr \<lparr> rom_data = [0x48, 0x69, 0x00, 0x00, 0x00, 0x00, 0x00, 0x00, 0x00, 0x00, 0x00, 0x00],
             current_free_space_offset = 0x79D6D8, repointed_locations = [0 \<mapsto> 0] \<rparr>
   \<and> original_length [0x48, 0x69, 0x00, 0x00, 0x00, 0x00, 0x00, 0x00, 0x00, 0x00, 0x00, 0x00] 6 = 1
   \<and> first_pass hiragana_lib (initial_repack_state world_rom)
         [TextEntry 0 0x100 0 (ustr ''Hi''), TextEntry 1 0x200 6 (ustr ''World'')] =
       Inr \<lparr> rom_data = [0x48, 0x69, 0x00, 0x00, 0x00, 0x00, 0x00, 0x00, 0x00, 0x00, 0x00, 0x00,
                          0x57, 0x6F, 0x72, 0x6C, 0x64, 0x00],
             current_free_space_offset = 0x79D6DE, repointed_locations = [0 \<mapsto> 0, 1 \<mapsto> 0x79D6D8] \<rparr>
   \<and> first_pass hiragana_lib (initial_repack_state world_rom) [TextEntry 1 0x200 6 (ustr ''World'')] =
       Inr \<lparr> rom_data = world_rom, current_free_space_offset = 0x79D6D8, repointed_locations = [1 \<mapsto> 6] \<rparr>"
  by (simp add: first_pass_entry_def encode_Hi encode_World original_length_def find_byte_def
      world_rom_def initial_repack_state_def terminator_def slice_assign_def set_item_def
      free_space_start_offset_def ROM_END_OFFSET_def upt_rec)

lemma collect_pointers_none:
  "(\<And>k. k \<in> set offsets \<Longrightarrow> scan_pointer rom k = Inr []) \<Longrightarrow> collect_pointers rom offsets = Inr []"
  by (induction offsets) simp_all

lemma four_zeros: "replicate 4 (0 :: byte) = [0, 0, 0, 0]"
  by (simp add: eval_nat_numeral)

lemma slice_in_padding:
  assumes "k + 4 \<le> n"
  shows "slice (replicate n (0 :: byte) @ ys) k (k + 4) = [0, 0, 0, 0]"
proof -
  have "slice (replicate n (0 :: byte) @ ys) k (k + 4) = replicate 4 0"
    using assms by (simp add: slice_def min_def)
  then show ?thesis
    by (simp only: four_zeros)
qed

lemma last_word_rom_low:
  assumes "k + 4 \<le> 0x10C000"
  shows "scan_pointer last_word_rom k = Inr []"
  unfolding scan_pointer_def last_word_rom_def slice_in_padding [OF assms]
  by (simp add: unpack_le32_def)

lemma last_word_rom_text: "scan_pointer last_word_rom 0x10C000 = Inr []"
  by (simp add: scan_pointer_def unpack_le32_def slice_def last_word_rom_def)

lemma last_word_rom_pointer: "scan_pointer last_word_rom 0x10C004 = Inr [(0x10C004, 0x10C000)]"
  by (simp add: scan_pointer_def unpack_le32_def slice_def last_word_rom_def OFFSET_MIN_VALID_def)

lemma last_word_rom_read:
  "read_string_from hiragana_lib last_word_rom 0x10C000 terminator = Some [0x3042, 0x3042]"
  by (simp add: last_word_rom_def decoder_defs shift_jis_decode.simps hiragana_lib_def)

lemma hiragana_pair_valid: "is_valid_string L (Some [0x3042, 0x3042])"
  by (simp add: classifier_defs findall_repl_tokens.simps)

lemma last_word_rom_scan: "dump_scan L last_word_rom = Inr initial_dump_state"
proof -
  have "scan_pointer last_word_rom k = Inr []" if "k \<in> set (scan_offsets (length last_word_rom))" for k
  proof -
    from that have "k mod 4 = 0" "k < 0x10C004"
      by (auto simp: scan_offsets_def last_word_rom_def)
    then have "k + 4 \<le> 0x10C000 \<or> k = 0x10C000"
      by presburger
    then show ?thesis
      using last_word_rom_low last_word_rom_text by blast
  qed
  then have "collect_pointers last_word_rom (scan_offsets (length last_word_rom)) = Inr []"
    by (rule collect_pointers_none)
  then show ?thesis
    by (simp add: dump_scan_def)
qed

text \<open>
  C6. The first loop of mode \<open>scan\<close> visits the offsets divisible by four with
  \<open>ptr_offset + 4 < rom_size\<close>: in an image whose size is a multiple of four the last
  aligned word is not read. In an image of eight bytes only offset 0 is visited. In
  the image \<open>last_word_rom\<close> the last word, at \<open>0x10C004\<close>, is a pointer to a text
  that the classifier accepts; the run writes no block.
\<close>

theorem C6_scan_skips_last_aligned_word:
  "(ptr_offset \<in> set (scan_offsets rom_size) \<longleftrightarrow> ptr_offset mod 4 = 0 \<and> ptr_offset + 4 < rom_size)
   \<and> scan_offsets 8 = [0]
   \<and> length last_word_rom = 0x10C008
   \<and> scan_pointer last_word_rom 0x10C004 = Inr [(0x10C004, 0x10C000)]
   \<and> is_valid_string hiragana_lib (read_string_from hiragana_lib last_word_rom 0x10C000 terminator)
   \<and> dump_scan hiragana_lib last_word_rom = Inr initial_dump_state"
proof -
  have "scan_offsets 8 = [0]"
    by (simp add: scan_offsets_def upt_rec)
  moreover have "ptr_offset \<in> set (scan_offsets rom_size) \<longleftrightarrow> ptr_offset mod 4 = 0 \<and> ptr_offset + 4 < rom_size"
    by (auto simp: scan_offsets_def)
  moreover have "length last_word_rom = 0x10C008"
    by (simp add: last_word_rom_def)
  ultimately show ?thesis
    using last_word_rom_pointer last_word_rom_scan [of hiragana_lib]
    by (simp add: last_word_rom_read hiragana_pair_valid)
qed

text \<open>
  C9. The euro sign is outside the repertoire; \<open>encode_string\<close> returns the byte \<open>?\<close>
  and the terminator for it, and the list of warnings printed is empty.
\<close>

theorem C9_replacement_is_silent:
  "sjis_encode_char hiragana_lib 0x20AC = None
   \<and> encode_string hiragana_lib [0x20AC] = Inr ([0x3F, 0x00], [])"
  by (simp add: encoder_defs hiragana_lib_def)

text \<open>
  C8, as stated: the bytes \<open>FF FE 00\<close> decode to the single token \<open><$FFFE$>\<close>, which
  the classifier rejects and which is encoded as \<open>FF FE 00\<close>. The codec reports each
  of the two bytes as an undecodable subsequence of its own, so the text has two
  tokens; and \<open>encode_string\<close> on \<open><$FFFE$>\<close> returns seven bytes, since the parts
  of the split contain the text of the inner group after the tag.
\<close>

theorem C8_escape_scenario_counterexample:
  "read_string_from hiragana_lib [0xFF, 0xFE, 0x00] 0 terminator = Some (ustr ''<$FF$><$FE$>'')
   \<and> ustr ''<$FF$><$FE$>'' \<noteq> ustr ''<$FFFE$>''
   \<and> encode_string hiragana_lib (ustr ''<$FFFE$>'') = Inr ([0xFF, 0xFE, 0x46, 0x46, 0x46, 0x45, 0x00], [])
   \<and> [0xFF, 0xFE, 0x46, 0x46, 0x46, 0x45, 0x00] \<noteq> [0xFF, 0xFE, 0x00 :: byte]"
  by (simp add: encoder_defs decoder_defs shift_jis_decode.simps)

text \<open>
  C8, amended. Whatever the tables, the bytes \<open>FF FE\<close> followed by the terminator
  decode to the text \<open><$FF$><$FE$>\<close>, two tokens of one byte each; the classifier
  rejects that text, and it rejects the text \<open><$FFFE$>\<close> as well.
\<close>

theorem C8_escape_scenario_amended:
  "read_string_from L [0xFF, 0xFE, 0x00] 0 terminator = Some (ustr ''<$FF$><$FE$>'')
   \<and> \<not> is_valid_string L (Some (ustr ''<$FF$><$FE$>''))
   \<and> \<not> is_valid_string L (Some (ustr ''<$FFFE$>''))"
  by (simp add: decoder_defs shift_jis_decode.simps ustr_def classifier_defs findall_repl_tokens.simps)

section \<open>Decoding and encoding again\<close>

lemma step_round_trip:
  assumes "tables_agree L" and "sjis_decode_step L bs = Some (u, n)"
  shows "replaced_bytes L [u] = take n bs \<and> 0 < n"
proof (cases bs)
  case Nil
  with assms(2) show ?thesis by simp
next
  case (Cons c rest)
  show ?thesis
  proof (cases "unat c < 0x80")
    case True
    with assms(2) Cons show ?thesis
      by (auto simp: replaced_bytes_def sjis_encode_char_def)
  next
    case False
    note hi = this
    show ?thesis
    proof (cases "0xA1 \<le> unat c \<and> unat c \<le> 0xDF")
      case True
      with hi assms(2) Cons show ?thesis
        by (auto simp: replaced_bytes_def sjis_encode_char_def)
    next
      case False
      with hi assms(2) Cons obtain t rest' where r: "rest = t # rest'" and d: "dbcs_decode L c t = Some u" and n: "n = 2"
        by (auto split: if_splits list.splits option.splits)
      from assms(1) d have "dbcs_encode L u = Some (c, t)" "0x80 \<le> u" "u \<noteq> 0xA5" "u \<noteq> 0x203E"
        "\<not> (0xFF61 \<le> u \<and> u \<le> 0xFF9F)"
        unfolding tables_agree_def by blast+
      with Cons r n show ?thesis
        by (simp add: replaced_bytes_def sjis_encode_char_def)
    qed
  qed
qed

lemma decode_round_trip:
  "tables_agree L \<Longrightarrow> decodes_cleanly L obj pos \<Longrightarrow>
   \<exists>s. shift_jis_decode L obj pos = Inr s \<and> replaced_bytes L s = drop pos obj"
proof (induction L obj pos rule: decodes_cleanly.induct)
  case (1 L obj pos)
  show ?case
  proof (cases "length obj \<le> pos")
    case True
    then show ?thesis
      by (simp add: shift_jis_decode.simps [of L obj pos] replaced_bytes_def)
  next
    case False
    with "1.prems"(2) obtain u n where step: "sjis_decode_step L (drop pos obj) = Some (u, n)"
      and rest: "decodes_cleanly L obj (pos + n)"
      by (subst (asm) decodes_cleanly.simps) (auto split: option.splits)
    from "1.IH" [OF False step refl "1.prems"(1) rest]
    obtain s where s: "shift_jis_decode L obj (pos + n) = Inr s" "replaced_bytes L s = drop (pos + n) obj"
      by blast
    from step_round_trip [OF "1.prems"(1) step]
    have u: "replaced_bytes L [u] = take n (drop pos obj)" by simp
    have "replaced_bytes L (u # s) = take n (drop pos obj) @ drop n (drop pos obj)"
      using u s(2) by (simp add: replaced_bytes_simps(2) [of L u s] add.commute)
    then have "replaced_bytes L (u # s) = drop pos obj"
      by (simp only: append_take_drop_id)
    moreover have "shift_jis_decode L obj pos = Inr (u # s)"
      using False step s(1) by (simp add: shift_jis_decode.simps [of L obj pos])
    ultimately show ?thesis by blast
  qed
qed

lemma find_in_append:
  "b \<notin> set xs \<Longrightarrow> find_in (xs @ b # ys) b i = Some (i + length xs)"
  by (induction xs arbitrary: i) auto

lemma bytes_replace_newline: "bytes_replace bs newline_char [0x0a] = bs"
  by (induction bs) (simp_all add: bytes_replace_def newline_char_def)

lemma read_string_from_run:
  assumes "terminator \<notin> set run"
  shows "read_string_from L (run @ terminator # rest) 0 terminator =
     (case shift_jis_decode L run 0 of Inl e \<Rightarrow> None | Inr decoded \<Rightarrow> Some decoded)"
  using assms
  by (simp add: read_string_from_def find_byte_def find_in_append slice_def bytes_replace_newline)

lemma hiragana_tables_agree: "tables_agree hiragana_lib"
  by (auto simp: tables_agree_def hiragana_lib_def split: if_splits)

text \<open>
  C1, as stated: for a run without terminator byte that decodes without an
  undecodable subsequence, encoding the decoded text returns the run. The encoder
  always appends the terminator, so the run \<open>A\<close> comes back as \<open>A\<close> and a zero
  byte; and a run that spells a hexadecimal tag, such as the six ASCII bytes of
  \<open><$41$>\<close>, decodes cleanly to that text and is then encoded as a tag, not as the
  run.
\<close>

theorem C1_round_trip_counterexample:
  "decodes_cleanly hiragana_lib [0x41] 0
   \<and> read_string_from hiragana_lib [0x41, 0x00] 0 terminator = Some [0x41]
   \<and> encode_string hiragana_lib [0x41] = Inr ([0x41, 0x00], [])
   \<and> [0x41, 0x00] \<noteq> [0x41 :: byte]
   \<and> decodes_cleanly hiragana_lib [0x3C, 0x24, 0x34, 0x31, 0x24, 0x3E] 0
   \<and> read_string_from hiragana_lib [0x3C, 0x24, 0x34, 0x31, 0x24, 0x3E, 0x00] 0 terminator = Some (ustr ''<$41$>'')
   \<and> encode_string hiragana_lib (ustr ''<$41$>'') = Inr ([0x41, 0x34, 0x31, 0x00], [])
   \<and> [0x41, 0x34, 0x31, 0x00] \<noteq> [0x3C, 0x24, 0x34, 0x31, 0x24, 0x3E :: byte]"
  by (simp add: decodes_cleanly.simps decoder_defs shift_jis_decode.simps encoder_defs)

text \<open>
  C1, amended. For tables that agree, a run without terminator byte that decodes
  without an undecodable subsequence is decoded by \<open>read_string_from\<close> to a text, and
  if no hexadecimal tag starts anywhere in that text, \<open>encode_string\<close> returns the run
  followed by the terminator byte (and prints no warning).
\<close>

theorem C1_round_trip_amended:
  assumes "tables_agree L" and "terminator \<notin> set run" and "decodes_cleanly L run 0"
  shows "\<exists>s. read_string_from L (run @ terminator # rest) 0 terminator = Some s
           \<and> (no_hex_tag s \<longrightarrow> encode_string L s = Inr (run @ [terminator], []))"
proof -
  from decode_round_trip [OF assms(1) assms(3)]
  obtain s where s: "shift_jis_decode L run 0 = Inr s" "replaced_bytes L s = run"
    by auto
  have "read_string_from L (run @ terminator # rest) 0 terminator = Some s"
    using read_string_from_run [OF assms(2), of L rest] s(1) by simp
  moreover have "encode_string L s = Inr (run @ [terminator], [])" if "no_hex_tag s"
    using encode_string_plain [OF that, of L] s(2) by simp
  ultimately show ?thesis by blast
qed

theorem C1_round_trip_witness:
  "tables_agree hiragana_lib \<and> terminator \<notin> set [0x82, 0xA0, 0x41, 0xB1]
   \<and> decodes_cleanly hiragana_lib [0x82, 0xA0, 0x41, 0xB1] 0
   \<and> read_string_from hiragana_lib [0x82, 0xA0, 0x41, 0xB1, 0x00] 0 terminator = Some [0x3042, 0x41, 0xFF71]
   \<and> no_hex_tag [0x3042, 0x41, 0xFF71]
   \<and> encode_string hiragana_lib [0x3042, 0x41, 0xFF71] = Inr ([0x82, 0xA0, 0x41, 0xB1, 0x00], [])"
proof -
  have t: "terminator \<notin> set [0x82, 0xA0, 0x41, 0xB1]"
    by (simp add: terminator_def)
  have c: "decodes_cleanly hiragana_lib [0x82, 0xA0, 0x41, 0xB1] 0"
    by (simp add: decodes_cleanly.simps hiragana_lib_def sjis_lead_byte_def sjis_trail_byte_def)
  have r: "read_string_from hiragana_lib [0x82, 0xA0, 0x41, 0xB1, 0x00] 0 terminator = Some [0x3042, 0x41, 0xFF71]"
    by (simp add: decoder_defs shift_jis_decode.simps hiragana_lib_def)
  have n: "no_hex_tag [0x3042, 0x41, 0xFF71]"
    by (simp add: match_hex_tag_def)
  from C1_round_trip_amended [OF hiragana_tables_agree t c, of "[]"] r n
  have "encode_string hiragana_lib [0x3042, 0x41, 0xFF71] = Inr ([0x82, 0xA0, 0x41, 0xB1] @ [terminator], [])"
    by (auto simp: terminator_def)
  with hiragana_tables_agree t c r n show ?thesis
    by (simp add: terminator_def)
qed

end
